theory Spec2Isabelle
  imports Main "HOL-Library.Sublist"
begin

section \<open>polarissync: pruning the Polaris workstation table against the directories\<close>

text \<open>
  The program (\<^verbatim>\<open>src/configuration.go\<close>, the second document of the file, package
  \<^verbatim>\<open>main\<close>) loads the workstation names of the Polaris database into the global slice
  \<^verbatim>\<open>dbComputers\<close>, the computer names of Active Directory and of Azure AD into the
  global slice \<^verbatim>\<open>adComputers\<close>, and deletes from the database every workstation that is
  in neither \<^verbatim>\<open>adComputers\<close> nor the configured list of exempt computers.

  The embedding keeps the globals in a record that every function takes and returns. The
  database, the LDAP server and the PowerShell session are outside the repository: what
  they answer is a field of the record \<open>World\<close>, and every error they can answer is a
  branch of the model. A Go \<^verbatim>\<open>panic\<close> (which \<^verbatim>\<open>writeError\<close> always ends in) and
  \<^verbatim>\<open>log.Fatal\<close> are values of the type \<open>error\<close>; a function that stops with one
  returns it together with the state reached so far.
\<close>

subsection \<open>Strings\<close>

text \<open>
  A Go string is a sequence of bytes, here a \<open>string\<close> (a list of 8-bit \<open>char\<close>).
  \<^verbatim>\<open>strings.HasPrefix\<close> and \<^verbatim>\<open>strings.Split\<close> compare bytes and are defined below as
  Go computes them. \<^verbatim>\<open>strings.ToUpper\<close> and \<^verbatim>\<open>strings.TrimSpace\<close> work on the Unicode
  code points of a string and consult the tables of the Go standard library, which are not
  part of the repository. The program takes these two functions from the record
  \<open>World\<close> below, as \<open>ToUpper w\<close> and \<open>TrimSpace w\<close>, so that what is proved of the
  program holds whatever the two compute.

  On a string of ASCII bytes (\<open>isASCII\<close>) Go computes what \<open>asciiToUpper\<close> and
  \<open>asciiTrimSpace\<close> compute: \<^verbatim>\<open>a\<close>..\<^verbatim>\<open>z\<close> become \<^verbatim>\<open>A\<close>..\<^verbatim>\<open>Z\<close>, and tab, line
  feed, vertical tab, form feed, carriage return and space are the white space. The
  examples run on ASCII strings with these two functions. A statement that depends on
  the value of an upper case carries the hypotheses \<open>asciiLibrary w\<close> (the library of
  \<open>w\<close> computes this on ASCII strings) and \<open>isASCII\<close> of the strings it is about.
\<close>

definition isASCII :: "string \<Rightarrow> bool" where
  "isASCII s = list_all (\<lambda>c. (of_char c :: nat) < 128) s"

definition isLower :: "char \<Rightarrow> bool" where
  "isLower c = (97 \<le> (of_char c :: nat) \<and> (of_char c :: nat) \<le> 122)"

definition toUpperByte :: "char \<Rightarrow> char" where
  "toUpperByte c = (if isLower c then char_of ((of_char c :: nat) - 32) else c)"

definition asciiToUpper :: "string \<Rightarrow> string" where
  "asciiToUpper s = map toUpperByte s"

definition isSpace :: "char \<Rightarrow> bool" where
  "isSpace c = ((of_char c :: nat) \<in> {9, 10, 11, 12, 13, 32})"

definition asciiTrimSpace :: "string \<Rightarrow> string" where
  "asciiTrimSpace s = rev (dropWhile isSpace (rev (dropWhile isSpace s)))"

fun HasPrefix :: "string \<Rightarrow> string \<Rightarrow> bool" where
  "HasPrefix s [] = True"
| "HasPrefix [] (p # ps) = False"
| "HasPrefix (c # cs) (p # ps) = (c = p \<and> HasPrefix cs ps)"

text \<open>
  \<^verbatim>\<open>strings.Split(s, sep)\<close> for a separator of one byte, which is how the program calls
  it (\<^verbatim>\<open>"\r"\<close>): the pieces between the separators, one more than there are
  separators, so the empty string gives one empty piece.
\<close>

fun Split :: "string \<Rightarrow> char \<Rightarrow> string list" where
  "Split [] sep = [] # []"
| "Split (c # cs) sep =
     (if c = sep then [] # Split cs sep
      else (case Split cs sep of [] \<Rightarrow> [c] # [] | piece # pieces \<Rightarrow> (c # piece) # pieces))"

text \<open>\<^verbatim>\<open>strconv.Itoa\<close> on the counts the program prints, which are never negative.\<close>

fun Itoa :: "nat \<Rightarrow> string" where
  "Itoa n = (if n < 10 then [char_of (48 + n)] else Itoa (n div 10) @ [char_of (48 + n mod 10)])"

declare Itoa.simps [simp del]

definition CR :: char where
  "CR = CHR 0x0D"

definition LF :: char where
  "LF = CHR 0x0A"

subsection \<open>Configuration, external answers, program state\<close>

text \<open>
  Of \<^verbatim>\<open>Configuration\<close> the record keeps the three fields that decide what the program
  does with the names. Hosts, credentials and the base DN only travel into the requests
  sent to the database and the directories, whose answers are given by \<open>World\<close>.
\<close>

record Configuration =
  ActiveDirectory_Enabled :: bool
  Azure_Enabled :: bool
  Database_ExemptComputers :: "string list"

datatype error = Panic string | Exit string

text \<open>One row of the result set: \<^verbatim>\<open>rows.Scan\<close> fails or yields the column.\<close>

datatype scan = ScanError string | Scanned string

text \<open>
  \<^verbatim>\<open>conn.Query\<close> fails, or gives rows and what \<^verbatim>\<open>rows.Err()\<close> says once
  \<^verbatim>\<open>rows.Next()\<close> has returned false.
\<close>

datatype query_result = QueryError string | QueryRows "scan list" "string option"

text \<open>
  \<^verbatim>\<open>conn.Exec\<close> fails, or gives a result holding the number of rows affected, which
  the program discards (\<^verbatim>\<open>_, err = conn.Exec(...)\<close>).
\<close>

datatype exec_result = ExecError string | ExecOk nat

record EntryAttribute =
  Name :: string
  Values :: "string list"

record Entry =
  DN :: string
  Attributes :: "EntryAttribute list"

datatype ldap_result =
  DialError string | BindError string | SearchError string | SearchResult "Entry list"

text \<open>
  The PowerShell session: one of the three pipes cannot be made, \<^verbatim>\<open>cmd.Start\<close> fails,
  \<^verbatim>\<open>cmd.Wait\<close> fails (with what was read from standard error), or the session exits
  with the bytes read from standard output.
\<close>

datatype powershell_result =
  PipeError string | StartError string | WaitError string string | Completed string

text \<open>
  The external collaborators. \<open>'d\<close> is the state of the database, which a delete changes;
  \<open>sql_Open\<close> is \<^verbatim>\<open>sql.Open("mssql", buildConnString())\<close> and answers an error or
  nothing, \<open>conn_Exec name\<close> is the parameterised delete keyed by \<open>name\<close>.
  \<open>ToUpper\<close> and \<open>TrimSpace\<close> are \<^verbatim>\<open>strings.ToUpper\<close> and \<^verbatim>\<open>strings.TrimSpace\<close>.
\<close>

record 'd World =
  sql_Open :: "'d \<Rightarrow> string option"
  conn_Query :: "'d \<Rightarrow> query_result"
  conn_Exec :: "string \<Rightarrow> 'd \<Rightarrow> exec_result \<times> 'd"
  ldap_Search :: ldap_result
  powershell :: powershell_result
  ToUpper :: "string \<Rightarrow> string"
  TrimSpace :: "string \<Rightarrow> string"

text \<open>
  The globals of the program: \<open>config\<close>, \<open>dbComputers\<close>, \<open>adComputers\<close> and
  \<open>infoLogger\<close>, which is \<open>None\<close> for the nil logger and otherwise holds the lines
  written so far. \<open>database\<close> is the state of the external store. \<open>sinkCalls\<close> is not a
  variable of the program: it records, in order, each call of \<^verbatim>\<open>removeComputer\<close> with
  its argument and with what the call returned, so that statements about what was passed
  to the removal can be made.
\<close>

record 'd state =
  config :: Configuration
  dbComputers :: "string list"
  adComputers :: "string list"
  infoLogger :: "string list option"
  database :: 'd
  sinkCalls :: "(string \<times> (error + bool)) list"

subsection \<open>Logging\<close>

definition writeInfo :: "string \<Rightarrow> 'd state \<Rightarrow> 'd state" where
  "writeInfo msg s =
     (case infoLogger s of
        None \<Rightarrow> s
      | Some out \<Rightarrow> s\<lparr>infoLogger := Some (out @ [msg])\<rparr>)"

text \<open>\<^verbatim>\<open>writeError\<close> panics whether or not an error logger is set.\<close>

definition writeError :: "string \<Rightarrow> error" where
  "writeError msg = Panic msg"

subsection \<open>The inventory reader\<close>

fun scanRows :: "'d World \<Rightarrow> scan list \<Rightarrow> 'd state \<Rightarrow> error option \<times> 'd state" where
  "scanRows w [] s = (None, s)"
| "scanRows w (ScanError e # rows) s =
     (Some (writeError (''error reading record from database: '' @ e)), s)"
| "scanRows w (Scanned ComputerName # rows) s =
     scanRows w rows (s\<lparr>dbComputers := dbComputers s @ [ToUpper w ComputerName]\<rparr>)"

definition listDBComputers :: "'d World \<Rightarrow> 'd state \<Rightarrow> error option \<times> 'd state" where
  "listDBComputers w s =
     (case sql_Open w (database s) of
        Some e \<Rightarrow> (Some (writeError (''database connection failed: '' @ e)), s)
      | None \<Rightarrow>
          (case conn_Query w (database s) of
             QueryError e \<Rightarrow> (Some (writeError (''failed to load workstations: '' @ e)), s)
           | QueryRows rows err \<Rightarrow>
               (case scanRows w rows s of
                  (Some e, s1) \<Rightarrow> (Some e, s1)
                | (None, s1) \<Rightarrow>
                    (case err of
                       Some e \<Rightarrow> (Some (writeError (''error reading from database: '' @ e)), s1)
                     | None \<Rightarrow>
                         (None, writeInfo (Itoa (length (dbComputers s1)) @ '' records retrieved'') s1)))))"

subsection \<open>The Active Directory reader\<close>

text \<open>
  The loop over \<^verbatim>\<open>result.Entries\<close>. \<^verbatim>\<open>x.Attributes[0].Values[0]\<close> indexes two slices
  without a check; on an empty slice the Go runtime panics.
\<close>

fun appendEntries :: "'d World \<Rightarrow> Entry list \<Rightarrow> 'd state \<Rightarrow> error option \<times> 'd state" where
  "appendEntries w [] s = (None, s)"
| "appendEntries w (x # xs) s =
     (case Attributes x of
        [] \<Rightarrow> (Some (Panic ''runtime error: index out of range [0] with length 0''), s)
      | a # _ \<Rightarrow>
          (case Values a of
             [] \<Rightarrow> (Some (Panic ''runtime error: index out of range [0] with length 0''), s)
           | v # _ \<Rightarrow> appendEntries w xs (s\<lparr>adComputers := adComputers s @ [ToUpper w v]\<rparr>)))"

definition listADComputers :: "'d World \<Rightarrow> 'd state \<Rightarrow> error option \<times> 'd state" where
  "listADComputers w s =
     (case ldap_Search w of
        DialError e \<Rightarrow> (Some (writeError (''unable to connect to AD server: '' @ e)), s)
      | BindError e \<Rightarrow> (Some (writeError (''unable to bind to ldap: '' @ e)), s)
      | SearchError e \<Rightarrow> (Some (writeError (''ldap search error: '' @ e)), s)
      | SearchResult entries \<Rightarrow>
          (case (if length entries > 0 then appendEntries w entries s
                 else (Some (writeError ''no results returned from ldap search''), s)) of
             (Some e, s1) \<Rightarrow> (Some e, s1)
           | (None, s1) \<Rightarrow>
               (None, writeInfo (Itoa (length (adComputers s1)) @ '' records retrieved from AD'') s1)))"

subsection \<open>The Azure reader\<close>

text \<open>
  The loop over \<^verbatim>\<open>psData\<close>, with its variables \<^verbatim>\<open>skip\<close> and \<^verbatim>\<open>count\<close>; the
  \<^verbatim>\<open>break\<close> is the branch that returns without looking at the remaining lines.
\<close>

fun scanReport :: "'d World \<Rightarrow> bool \<Rightarrow> string list \<Rightarrow> nat \<Rightarrow> 'd state \<Rightarrow> nat \<times> 'd state" where
  "scanReport w skip [] count s = (count, s)"
| "scanReport w skip (c # cs) count s =
     (if \<not> skip then
        (let trimmed = TrimSpace w c in
         if trimmed = [] then (count, s)
         else scanReport w skip cs (count + 1)
                (s\<lparr>adComputers := adComputers s @ [ToUpper w trimmed]\<rparr>))
      else if HasPrefix (TrimSpace w c) ''-----------'' then scanReport w False cs count s
      else scanReport w skip cs count s)"

definition listAzureComputers :: "'d World \<Rightarrow> 'd state \<Rightarrow> error option \<times> 'd state" where
  "listAzureComputers w s =
     (case powershell w of
        PipeError e \<Rightarrow> (Some (Exit e), s)
      | StartError e \<Rightarrow> (Some (writeError (''failed to connect to powershell: '' @ e)), s)
      | WaitError e errtxt \<Rightarrow>
          (Some (writeError (''failed to retrieve records from Azure: '' @ e @ [LF] @ errtxt)), s)
      | Completed out \<Rightarrow>
          (case scanReport w True (Split out CR) 0 s of
             (count, s1) \<Rightarrow> (None, writeInfo (Itoa count @ '' records retrieved from Azure'') s1)))"

subsection \<open>Removal\<close>

definition removeComputer :: "'d World \<Rightarrow> string \<Rightarrow> 'd state \<Rightarrow> (error + bool) \<times> 'd state" where
  "removeComputer w name s =
     (case sql_Open w (database s) of
        Some e \<Rightarrow>
          (let r = Inl (writeError (''database connection failed: '' @ e))
           in (r, s\<lparr>sinkCalls := sinkCalls s @ [(name, r)]\<rparr>))
      | None \<Rightarrow>
          (case conn_Exec w name (database s) of
             (ExecError e, d) \<Rightarrow>
               (Inr False,
                writeInfo (''Failed to remove workstion '' @ name @ '': '' @ e)
                  (s\<lparr>database := d, sinkCalls := sinkCalls s @ [(name, Inr False)]\<rparr>))
           | (ExecOk n, d) \<Rightarrow>
               (Inr True,
                writeInfo (name @ '' removed from database'')
                  (s\<lparr>database := d, sinkCalls := sinkCalls s @ [(name, Inr True)]\<rparr>))))"

text \<open>
  The two inner loops of \<^verbatim>\<open>findComputersToRemoveFromDB\<close> compare one name with the
  elements of a slice, from the first on, and stop at the first equal one.
\<close>

fun foundIn :: "string \<Rightarrow> string list \<Rightarrow> bool" where
  "foundIn x [] = False"
| "foundIn x (y # ys) = (if x = y then True else foundIn x ys)"

text \<open>
  The outer loop, over the elements of \<^verbatim>\<open>dbComputers\<close> still to visit. The exempt
  list is searched only when the name was not found in \<^verbatim>\<open>adComputers\<close>, and a hit
  there is logged; a name found in neither is handed to \<^verbatim>\<open>removeComputer\<close>.
\<close>

fun removalLoop :: "'d World \<Rightarrow> string list \<Rightarrow> nat \<Rightarrow> 'd state \<Rightarrow> (error + nat) \<times> 'd state" where
  "removalLoop w [] count s = (Inr count, s)"
| "removalLoop w (x # xs) count s =
     (if foundIn x (adComputers s) then removalLoop w xs count s
      else if foundIn x (Database_ExemptComputers (config s)) then
        removalLoop w xs count (writeInfo (''Skipping '' @ x @ '', exempt from removal'') s)
      else
        (case removeComputer w x s of
           (Inl e, s1) \<Rightarrow> (Inl e, s1)
         | (Inr removed, s1) \<Rightarrow> removalLoop w xs (if removed then count + 1 else count) s1))"

definition findComputersToRemoveFromDB :: "'d World \<Rightarrow> 'd state \<Rightarrow> error option \<times> 'd state" where
  "findComputersToRemoveFromDB w s =
     (case removalLoop w (dbComputers s) 0 s of
        (Inl e, s1) \<Rightarrow> (Some e, s1)
      | (Inr count, s1) \<Rightarrow>
          (None, writeInfo (Itoa count @ '' computers removed from database'') s1))"

subsection \<open>The run\<close>

text \<open>
  \<^verbatim>\<open>main\<close> from the point where the configuration is loaded and the loggers are set:
  the four phases, each entered only when the one before returned.
\<close>

definition main :: "'d World \<Rightarrow> 'd state \<Rightarrow> error option \<times> 'd state" where
  "main w s =
     (case listDBComputers w (writeInfo ''Loading the list of computers from the database'' s) of
        (Some e, s1) \<Rightarrow> (Some e, s1)
      | (None, s1) \<Rightarrow>
          (case (if ActiveDirectory_Enabled (config s1)
                 then listADComputers w
                        (writeInfo ''Loading the list of computers from Active Directory'' s1)
                 else (None, s1)) of
             (Some e, s2) \<Rightarrow> (Some e, s2)
           | (None, s2) \<Rightarrow>
               (case (if Azure_Enabled (config s2)
                      then listAzureComputers w
                             (writeInfo ''Loading the list of computers from Azure'' s2)
                      else (None, s2)) of
                  (Some e, s3) \<Rightarrow> (Some e, s3)
                | (None, s3) \<Rightarrow>
                    findComputersToRemoveFromDB w
                      (writeInfo ''Searching for computers to remove from the database'' s3))))"

text \<open>The state in which the program starts: both slices nil, nothing removed yet.\<close>

definition start :: "Configuration \<Rightarrow> string list option \<Rightarrow> 'd \<Rightarrow> 'd state" where
  "start cfg logger d =
     \<lparr>config = cfg, dbComputers = [], adComputers = [], infoLogger = logger,
      database = d, sinkCalls = []\<rparr>"

subsection \<open>Vocabulary of the statements\<close>



text \<open>
  The library of \<open>w\<close> computes on ASCII strings what Go computes on them.
\<close>

definition asciiLibrary :: "'d World \<Rightarrow> bool" where
  "asciiLibrary w =
     (\<forall>x. isASCII x \<longrightarrow> ToUpper w x = asciiToUpper x \<and> TrimSpace w x = asciiTrimSpace x)"

text \<open>
  A removal candidate in state \<open>s\<close>: a name equal to no element of \<open>adComputers\<close> and
  to no configured exempt entry.
\<close>

definition candidate :: "'d state \<Rightarrow> string \<Rightarrow> bool" where
  "candidate s x =
     (x \<notin> set (adComputers s) \<and> x \<notin> set (Database_ExemptComputers (config s)))"

text \<open>How many of the recorded calls of \<^verbatim>\<open>removeComputer\<close> returned true.\<close>

definition removedCount :: "(string \<times> (error + bool)) list \<Rightarrow> nat" where
  "removedCount calls = length (filter (\<lambda>call. snd call = Inr True) calls)"

definition execFailed :: "exec_result \<Rightarrow> bool" where
  "execFailed r = (case r of ExecError e \<Rightarrow> True | ExecOk n \<Rightarrow> False)"

text \<open>
  The device names of a report, told the way the specification tells it, over the lines
  the program works on (the pieces between carriage returns): a line is the header
  separator when, trimmed by \<^verbatim>\<open>strings.TrimSpace\<close>, it starts with eleven dashes; the lines up to and
  including the first separator are skipped; the lines after it, up to the first one that
  is blank once trimmed, are the devices, each trimmed and put in upper case.
\<close>

definition isSeparator :: "'d World \<Rightarrow> string \<Rightarrow> bool" where
  "isSeparator w line = HasPrefix (TrimSpace w line) ''-----------''"

definition deviceLines :: "'d World \<Rightarrow> string list \<Rightarrow> string list" where
  "deviceLines w lines =
     takeWhile (\<lambda>c. TrimSpace w c \<noteq> []) (drop 1 (dropWhile (\<lambda>c. \<not> isSeparator w c) lines))"

definition reportNames_spec :: "'d World \<Rightarrow> string list \<Rightarrow> string list" where
  "reportNames_spec w lines = map (\<lambda>c. ToUpper w (TrimSpace w c)) (deviceLines w lines)"

text \<open>The first value of the first attribute of a directory entry.\<close>

definition hasName :: "Entry \<Rightarrow> bool" where
  "hasName x = (Attributes x \<noteq> [] \<and> Values (hd (Attributes x)) \<noteq> [])"

definition firstValue :: "Entry \<Rightarrow> string" where
  "firstValue x = hd (Values (hd (Attributes x)))"

subsection \<open>A world for the examples\<close>

text \<open>
  The database is the list of the names in the workstation table. The query returns them
  all; the delete removes the rows whose name equals the key up to letter case (the
  comparison of a case-insensitive collation) and reports how many there were. The
  library is the ASCII one. In \<open>busyWorld\<close> the delete of one name, \<open>BETA\<close>, fails.
\<close>

definition deleteRows :: "string \<Rightarrow> string list \<Rightarrow> exec_result \<times> string list" where
  "deleteRows name table =
     (ExecOk (length (filter (\<lambda>r. asciiToUpper r = asciiToUpper name) table)),
      filter (\<lambda>r. asciiToUpper r \<noteq> asciiToUpper name) table)"

definition tableWorld :: "ldap_result \<Rightarrow> powershell_result \<Rightarrow> string list World" where
  "tableWorld l p =
     \<lparr>sql_Open = (\<lambda>table. None),
      conn_Query = (\<lambda>table. QueryRows (map Scanned table) None),
      conn_Exec = deleteRows,
      ldap_Search = l,
      powershell = p,
      ToUpper = asciiToUpper,
      TrimSpace = asciiTrimSpace\<rparr>"

definition busyWorld :: "ldap_result \<Rightarrow> powershell_result \<Rightarrow> string list World" where
  "busyWorld l p =
     (tableWorld l p)
       \<lparr>conn_Exec := (\<lambda>name table.
           if name = ''BETA'' then (ExecError ''deadlock victim'', table)
           else deleteRows name table)\<rparr>"

definition cnEntry :: "string \<Rightarrow> Entry" where
  "cnEntry v = \<lparr>DN = ''CN='' @ v, Attributes = [\<lparr>Name = ''cn'', Values = [v]\<rparr>]\<rparr>"

definition settings :: "bool \<Rightarrow> bool \<Rightarrow> string list \<Rightarrow> Configuration" where
  "settings ad azure exempt =
     \<lparr>ActiveDirectory_Enabled = ad, Azure_Enabled = azure, Database_ExemptComputers = exempt\<rparr>"

text \<open>
  The report of the specification's scenario, with line feeds as written there, and the
  same report with the line ends PowerShell writes on Windows (carriage return, line
  feed); before them a report with a header and no device, and one whose only device
  line is padded with spaces (its lines end with a carriage return alone).
\<close>

definition reportLF :: string where
  "reportLF = ''Header'' @ [CHR 0x0A] @ ''-----------'' @ [CHR 0x0A] @ ''DEVICE1'' @ [CHR 0x0A]
     @ ''DEVICE2'' @ [CHR 0x0A, CHR 0x0A] @ ''Trailing junk''"

definition reportNoDevices :: string where
  "reportNoDevices = ''DisplayName'' @ [CHR 0x0D, CHR 0x0A] @ ''-----------'' @ [CHR 0x0D, CHR 0x0A]"


definition reportCRLF :: string where
  "reportCRLF = ''Header'' @ [CHR 0x0D, CHR 0x0A] @ ''-----------'' @ [CHR 0x0D, CHR 0x0A]
     @ ''DEVICE1'' @ [CHR 0x0D, CHR 0x0A] @ ''DEVICE2'' @ [CHR 0x0D, CHR 0x0A, CHR 0x0D, CHR 0x0A]
     @ ''Trailing junk''"

section \<open>Lemmas\<close>

subsection \<open>Upper case\<close>







subsection \<open>The library on ASCII strings\<close>

lemma isASCII_set: "isASCII s = (\<forall>c \<in> set s. (of_char c :: nat) < 128)"
  by (simp add: isASCII_def list_all_iff)


lemma set_asciiTrimSpace: "set (asciiTrimSpace s) \<subseteq> set s"
proof -
  have "set (asciiTrimSpace s) \<subseteq> set (dropWhile isSpace s)"
    unfolding asciiTrimSpace_def using set_dropWhileD [of _ isSpace "rev (dropWhile isSpace s)"]
    by auto
  also have "\<dots> \<subseteq> set s" using set_dropWhileD [of _ isSpace s] by auto
  finally show ?thesis .
qed

lemma isASCII_asciiTrimSpace: "isASCII x \<Longrightarrow> isASCII (asciiTrimSpace x)"
  using set_asciiTrimSpace [of x] by (auto simp add: isASCII_set)

lemma asciiLibrary_ToUpper: "asciiLibrary w \<Longrightarrow> isASCII x \<Longrightarrow> ToUpper w x = asciiToUpper x"
  by (simp add: asciiLibrary_def)

lemma asciiLibrary_TrimSpace:
  "asciiLibrary w \<Longrightarrow> isASCII x \<Longrightarrow> TrimSpace w x = asciiTrimSpace x"
  by (simp add: asciiLibrary_def)

lemma asciiLibrary_tableWorld: "asciiLibrary (tableWorld l p)"
  by (simp add: asciiLibrary_def tableWorld_def)

lemma asciiLibrary_busyWorld: "asciiLibrary (busyWorld l p)"
  by (simp add: asciiLibrary_def busyWorld_def tableWorld_def)

subsection \<open>The removal loop\<close>

lemma foundIn_set: "foundIn x ys = (x \<in> set ys)"
  by (induction ys) auto

lemma writeInfo_fields [simp]:
  "config (writeInfo m s) = config s"
  "dbComputers (writeInfo m s) = dbComputers s"
  "adComputers (writeInfo m s) = adComputers s"
  "database (writeInfo m s) = database s"
  "sinkCalls (writeInfo m s) = sinkCalls s"
  by (simp_all add: writeInfo_def split: option.split)

lemma removeComputer_fields:
  assumes "removeComputer w name s = (r, s')"
  shows "config s' = config s" "dbComputers s' = dbComputers s" "adComputers s' = adComputers s"
    "sinkCalls s' = sinkCalls s @ [(name, r)]"
  using assms
  by (auto simp add: removeComputer_def Let_def split: option.splits prod.splits exec_result.splits)

lemma candidate_cong:
  "config s' = config s \<Longrightarrow> adComputers s' = adComputers s \<Longrightarrow> candidate s' = candidate s"
  by (simp add: candidate_def fun_eq_iff)

lemma removalLoop_fields:
  "removalLoop w xs c s = (r, s') \<Longrightarrow>
     config s' = config s \<and> dbComputers s' = dbComputers s \<and> adComputers s' = adComputers s"
proof (induction xs arbitrary: c s)
  case Nil
  then show ?case by simp
next
  case (Cons x xs)
  show ?case
  proof (cases "foundIn x (adComputers s)")
    case True
    with Cons show ?thesis by simp
  next
    case notAD: False
    show ?thesis
    proof (cases "foundIn x (Database_ExemptComputers (config s))")
      case True
      with notAD Cons.prems have "removalLoop w xs c (writeInfo (''Skipping '' @ x @ '', exempt from removal'') s) = (r, s')"
        by simp
      from Cons.IH [OF this] show ?thesis by simp
    next
      case False
      obtain q s1 where rc: "removeComputer w x s = (q, s1)" by (cases "removeComputer w x s")
      note f = removeComputer_fields [OF rc]
      show ?thesis
      proof (cases q)
        case (Inl e)
        with notAD False rc Cons.prems have "s' = s1" by simp
        with f show ?thesis by simp
      next
        case (Inr b)
        with notAD False rc Cons.prems
        have "removalLoop w xs (if b then c + 1 else c) s1 = (r, s')" by simp
        from Cons.IH [OF this] f show ?thesis by simp
      qed
    qed
  qed
qed

lemma removalLoop_calls:
  "removalLoop w xs c s = (r, s') \<Longrightarrow>
     \<exists>new. sinkCalls s' = sinkCalls s @ new
        \<and> prefix (map fst new) (filter (candidate s) xs)
        \<and> (\<forall>c'. r = Inr c' \<longrightarrow>
              map fst new = filter (candidate s) xs \<and> c' = c + removedCount new
              \<and> (\<forall>call \<in> set new. \<exists>b. snd call = Inr b))"
proof (induction xs arbitrary: c s)
  case Nil
  then show ?case by (auto simp add: removedCount_def)
next
  case (Cons x xs)
  show ?case
  proof (cases "foundIn x (adComputers s)")
    case True
    then have nc: "\<not> candidate s x" by (simp add: candidate_def foundIn_set)
    from True Cons.prems have "removalLoop w xs c s = (r, s')" by simp
    from Cons.IH [OF this] nc show ?thesis by simp
  next
    case notAD: False
    show ?thesis
    proof (cases "foundIn x (Database_ExemptComputers (config s))")
      case True
      then have nc: "\<not> candidate s x" by (simp add: candidate_def foundIn_set)
      let ?s1 = "writeInfo (''Skipping '' @ x @ '', exempt from removal'') s"
      have cs: "candidate ?s1 = candidate s" by (rule candidate_cong) simp_all
      from True notAD Cons.prems have "removalLoop w xs c ?s1 = (r, s')" by simp
      from Cons.IH [OF this] nc cs show ?thesis by simp
    next
      case False
      with notAD have ca: "candidate s x" by (simp add: candidate_def foundIn_set)
      obtain q s1 where rc: "removeComputer w x s = (q, s1)" by (cases "removeComputer w x s")
      note f = removeComputer_fields [OF rc]
      have cs: "candidate s1 = candidate s" by (rule candidate_cong) (simp_all add: f)
      show ?thesis
      proof (cases q)
        case (Inl e)
        with notAD False rc Cons.prems have "s' = s1" "r = Inl e" by simp_all
        with f ca Inl show ?thesis by simp
      next
        case (Inr b)
        with notAD False rc Cons.prems
        have "removalLoop w xs (if b then c + 1 else c) s1 = (r, s')" by simp
        from Cons.IH [OF this] obtain new where
          n: "sinkCalls s' = sinkCalls s1 @ new"
             "prefix (map fst new) (filter (candidate s1) xs)"
             "\<forall>c'. r = Inr c' \<longrightarrow>
                map fst new = filter (candidate s1) xs
                \<and> c' = (if b then c + 1 else c) + removedCount new
                \<and> (\<forall>call \<in> set new. \<exists>b. snd call = Inr b)"
          by blast
        let ?new = "(x, q) # new"
        have "sinkCalls s' = sinkCalls s @ ?new" using n(1) f by simp
        moreover have "prefix (map fst ?new) (filter (candidate s) (x # xs))"
          using n(2) ca cs by simp
        moreover have "\<forall>c'. r = Inr c' \<longrightarrow>
              map fst ?new = filter (candidate s) (x # xs) \<and> c' = c + removedCount ?new
              \<and> (\<forall>call \<in> set ?new. \<exists>b. snd call = Inr b)"
          using n(3) ca cs Inr by (auto simp add: removedCount_def)
        ultimately show ?thesis by blast
      qed
    qed
  qed
qed

lemma removeComputer_opens:
  "sql_Open w (database s) = None \<Longrightarrow> \<exists>b. fst (removeComputer w name s) = Inr b"
  by (auto simp add: removeComputer_def split: prod.splits exec_result.splits)

lemma removalLoop_completes:
  "\<forall>d. sql_Open w d = None \<Longrightarrow> \<exists>c'. fst (removalLoop w xs c s) = Inr c'"
proof (induction xs arbitrary: c s)
  case Nil
  then show ?case by simp
next
  case (Cons x xs)
  from Cons.prems have "sql_Open w (database s) = None" by simp
  from removeComputer_opens [OF this, of x] obtain b where
    "fst (removeComputer w x s) = Inr b" by blast
  then obtain s1 where "removeComputer w x s = (Inr b, s1)"
    by (cases "removeComputer w x s") simp
  then show ?case using Cons.IH [OF Cons.prems] by simp
qed

lemma count_list_filter:
  "count_list (filter P xs) x = (if P x then count_list xs x else 0)"
  by (induction xs) auto

lemma findComputers_outcome:
  "fst (findComputersToRemoveFromDB w s) = (case fst (removalLoop w (dbComputers s) 0 s) of Inl e \<Rightarrow> Some e | Inr c \<Rightarrow> None)"
  "sinkCalls (snd (findComputersToRemoveFromDB w s)) = sinkCalls (snd (removalLoop w (dbComputers s) 0 s))"
  by (simp_all add: findComputersToRemoveFromDB_def split: prod.splits sum.splits)

lemma removeComputer_result:
  "sql_Open w (database s) = None \<Longrightarrow>
     fst (removeComputer w name s) = Inr (\<not> execFailed (fst (conn_Exec w name (database s))))"
  by (simp add: removeComputer_def execFailed_def split: prod.splits exec_result.splits)

lemma removeComputer_logs:
  assumes "sql_Open w (database s) = None" and "infoLogger s = Some out"
  shows "fst (conn_Exec w name (database s)) = ExecError e \<Longrightarrow>
           infoLogger (snd (removeComputer w name s))
             = Some (out @ [''Failed to remove workstion '' @ name @ '': '' @ e])"
    and "fst (conn_Exec w name (database s)) = ExecOk n \<Longrightarrow>
           infoLogger (snd (removeComputer w name s)) = Some (out @ [name @ '' removed from database''])"
  using assms by (auto simp add: removeComputer_def writeInfo_def split: prod.splits)

subsection \<open>The readers\<close>

lemma scanRows_fields:
  "scanRows w rows s = (r, s') \<Longrightarrow>
     config s' = config s \<and> adComputers s' = adComputers s \<and> database s' = database s
     \<and> sinkCalls s' = sinkCalls s \<and> infoLogger s' = infoLogger s"
  by (induction w rows s rule: scanRows.induct) auto

lemma listDBComputers_fields:
  assumes "listDBComputers w s = (r, s')"
  shows "config s' = config s" "adComputers s' = adComputers s" "database s' = database s"
    "sinkCalls s' = sinkCalls s"
  using assms
  by (auto simp add: listDBComputers_def
      split: option.splits query_result.splits prod.splits dest: scanRows_fields)


lemma listADComputers_empty:
  "ldap_Search w = SearchResult [] \<Longrightarrow>
     listADComputers w s = (Some (Panic ''no results returned from ldap search''), s)"
  by (simp add: listADComputers_def writeError_def)

lemma appendEntries_named:
  "\<forall>x \<in> set entries. hasName x \<Longrightarrow>
     appendEntries w entries s
       = (None, s\<lparr>adComputers := adComputers s @ map (\<lambda>x. ToUpper w (firstValue x)) entries\<rparr>)"
proof (induction entries arbitrary: s)
  case Nil
  then show ?case by simp
next
  case (Cons x xs)
  from Cons.prems have "hasName x" by simp
  then obtain a as v vs where "Attributes x = a # as" "Values a = v # vs"
    by (auto simp add: hasName_def neq_Nil_conv)
  with Cons show ?case by (simp add: firstValue_def)
qed

lemma appendEntries_unnamed:
  "\<exists>x \<in> set entries. \<not> hasName x \<Longrightarrow>
     fst (appendEntries w entries s) = Some (Panic ''runtime error: index out of range [0] with length 0'')"
proof (induction entries arbitrary: s)
  case Nil
  then show ?case by simp
next
  case (Cons x xs)
  show ?case
  proof (cases "hasName x")
    case True
    then obtain a as v vs where "Attributes x = a # as" "Values a = v # vs"
      by (auto simp add: hasName_def neq_Nil_conv)
    moreover from True Cons.prems have "\<exists>x \<in> set xs. \<not> hasName x" by simp
    ultimately show ?thesis using Cons.IH by simp
  next
    case False
    then show ?thesis by (auto simp add: hasName_def split: list.splits)
  qed
qed

subsection \<open>The report of the cloud directory\<close>


lemma scanReport_collect:
  "scanReport w False cs count s
     = (count + length (takeWhile (\<lambda>c. TrimSpace w c \<noteq> []) cs),
        s\<lparr>adComputers := adComputers s
             @ map (\<lambda>c. ToUpper w (TrimSpace w c)) (takeWhile (\<lambda>c. TrimSpace w c \<noteq> []) cs)\<rparr>)"
  by (induction cs arbitrary: count s) (simp_all add: Let_def)

lemma scanReport_skip:
  "scanReport w True cs count s
     = scanReport w False (drop 1 (dropWhile (\<lambda>c. \<not> isSeparator w c) cs)) count s"
  by (induction cs arbitrary: count s) (simp_all add: isSeparator_def)

lemma scanReport_spec:
  "scanReport w True lines 0 s
     = (length (reportNames_spec w lines),
        s\<lparr>adComputers := adComputers s @ reportNames_spec w lines\<rparr>)"
  by (simp add: scanReport_skip scanReport_collect reportNames_spec_def deviceLines_def)

lemma listAzureComputers_completed:
  "powershell w = Completed out \<Longrightarrow>
     listAzureComputers w s
       = (None,
          writeInfo (Itoa (length (reportNames_spec w (Split out CR))) @ '' records retrieved from Azure'')
            (s\<lparr>adComputers := adComputers s @ reportNames_spec w (Split out CR)\<rparr>))"
  by (simp add: listAzureComputers_def scanReport_spec)

lemma deviceLines_subset: "set (deviceLines w lines) \<subseteq> set lines"
proof -
  have "set (deviceLines w lines) \<subseteq> set (drop 1 (dropWhile (\<lambda>c. \<not> isSeparator w c) lines))"
    unfolding deviceLines_def by (rule set_takeWhileD [THEN conjunct1, THEN subsetI])
  also have "\<dots> \<subseteq> set (dropWhile (\<lambda>c. \<not> isSeparator w c) lines)"
    by (rule set_drop_subset)
  also have "\<dots> \<subseteq> set lines"
    using set_dropWhileD [of _ "\<lambda>c. \<not> isSeparator w c" lines] by auto
  finally show ?thesis .
qed

lemma reportNames_spec_ascii:
  assumes lib: "asciiLibrary w" and lib': "asciiLibrary w'" and ascii: "\<forall>c \<in> set lines. isASCII c"
  shows "reportNames_spec w lines = reportNames_spec w' lines"
proof -
  have trim: "TrimSpace w c = TrimSpace w' c" if "c \<in> set lines" for c
    using that ascii lib lib' by (simp add: asciiLibrary_TrimSpace)
  then have sep: "isSeparator w c = isSeparator w' c" if "c \<in> set lines" for c
    using that by (simp add: isSeparator_def)
  have dw: "dropWhile (\<lambda>c. \<not> isSeparator w c) lines = dropWhile (\<lambda>c. \<not> isSeparator w' c) lines"
    by (rule dropWhile_cong) (simp_all add: sep)
  have "set (drop 1 (dropWhile (\<lambda>c. \<not> isSeparator w' c) lines)) \<subseteq> set lines"
    using set_drop_subset [of 1 "dropWhile (\<lambda>c. \<not> isSeparator w' c) lines"]
      set_dropWhileD [of _ "\<lambda>c. \<not> isSeparator w' c" lines]
    by auto
  then have dl: "deviceLines w lines = deviceLines w' lines"
    unfolding deviceLines_def dw by (intro takeWhile_cong refl) (auto simp add: trim)
  have "ToUpper w (TrimSpace w c) = ToUpper w' (TrimSpace w' c)" if "c \<in> set lines" for c
  proof -
    from that ascii have a: "isASCII c" by simp
    then have "isASCII (asciiTrimSpace c)" by (rule isASCII_asciiTrimSpace)
    with a lib lib' show ?thesis by (simp add: asciiLibrary_TrimSpace asciiLibrary_ToUpper)
  qed
  then show ?thesis
    unfolding reportNames_spec_def dl using deviceLines_subset [of w' lines]
    by (intro map_cong refl) auto
qed

lemma reportCRLF_names:
  assumes "asciiLibrary w"
  shows "reportNames_spec w (Split reportCRLF CR) = [''DEVICE1'', ''DEVICE2'']"
proof -
  let ?w0 = "tableWorld (SearchResult []) (Completed [])"
  have a: "\<forall>c \<in> set (Split reportCRLF CR). isASCII c" by code_simp
  have v: "reportNames_spec ?w0 (Split reportCRLF CR) = [''DEVICE1'', ''DEVICE2'']" by code_simp
  from reportNames_spec_ascii [OF assms asciiLibrary_tableWorld a, of "SearchResult []" "Completed []"] v
  show ?thesis by simp
qed

lemma Itoa_0: "Itoa 0 = ''0''"
  by code_simp

subsection \<open>What each reader appends\<close>




section \<open>The claims\<close>

text \<open>
  C1. Start \<^verbatim>\<open>findComputersToRemoveFromDB\<close> with no removal recorded yet. Every name it
  hands to \<^verbatim>\<open>removeComputer\<close> is an element of \<open>dbComputers\<close> that is neither in
  \<open>adComputers\<close> nor in the exempt list, so a name outside the inventory is never handed
  over. When the function returns, the names handed over are exactly the inventory minus
  the union of \<open>adComputers\<close> and the exempt list; and it does return whenever
  \<^verbatim>\<open>sql.Open\<close> does not fail, which is the only panic in the removal.
\<close>

theorem removal_set_is_difference:
  assumes "sinkCalls s = []"
  shows "set (map fst (sinkCalls (snd (findComputersToRemoveFromDB w s))))
           \<subseteq> set (dbComputers s) - (set (adComputers s) \<union> set (Database_ExemptComputers (config s)))
         \<and> (fst (findComputersToRemoveFromDB w s) = None \<longrightarrow>
              set (map fst (sinkCalls (snd (findComputersToRemoveFromDB w s))))
                = set (dbComputers s) - (set (adComputers s) \<union> set (Database_ExemptComputers (config s))))
         \<and> ((\<forall>d. sql_Open w d = None) \<longrightarrow> fst (findComputersToRemoveFromDB w s) = None)"
proof -
  obtain r s' where loop: "removalLoop w (dbComputers s) 0 s = (r, s')"
    by (cases "removalLoop w (dbComputers s) 0 s")
  from removalLoop_calls [OF loop] assms obtain new where
    n: "sinkCalls s' = new"
       "prefix (map fst new) (filter (candidate s) (dbComputers s))"
       "\<forall>c'. r = Inr c' \<longrightarrow> map fst new = filter (candidate s) (dbComputers s)"
    by auto
  have diff: "set (filter (candidate s) (dbComputers s))
      = set (dbComputers s) - (set (adComputers s) \<union> set (Database_ExemptComputers (config s)))"
    by (auto simp add: candidate_def)
  have calls: "sinkCalls (snd (findComputersToRemoveFromDB w s)) = new"
    using loop n(1) by (simp add: findComputers_outcome)
  have sub: "set (map fst new) \<subseteq> set (filter (candidate s) (dbComputers s))"
    using n(2) by (rule set_mono_prefix)
  have eq: "fst (findComputersToRemoveFromDB w s) = None \<Longrightarrow>
      map fst new = filter (candidate s) (dbComputers s)"
    using loop n(3) by (cases r) (simp_all add: findComputers_outcome)
  have total: "\<forall>d. sql_Open w d = None \<Longrightarrow> fst (findComputersToRemoveFromDB w s) = None"
  proof -
    assume "\<forall>d. sql_Open w d = None"
    from removalLoop_completes [OF this, of "dbComputers s" 0 s]
    show ?thesis by (auto simp add: findComputers_outcome)
  qed
  show ?thesis
    unfolding calls using sub eq total diff by auto
qed

theorem removal_set_is_difference_witness:
  "sinkCalls (start (settings True False [''GAMMA'']) None [''alpha'', ''beta'', ''gamma'']
       \<lparr>dbComputers := [''ALPHA'', ''BETA'', ''GAMMA''], adComputers := [''ALPHA'']\<rparr>) = []
   \<and> (\<forall>d. sql_Open (tableWorld (SearchResult []) (Completed [])) d = None)
   \<and> fst (findComputersToRemoveFromDB (tableWorld (SearchResult []) (Completed []))
        (start (settings True False [''GAMMA'']) None [''alpha'', ''beta'', ''gamma'']
           \<lparr>dbComputers := [''ALPHA'', ''BETA'', ''GAMMA''], adComputers := [''ALPHA'']\<rparr>)) = None
   \<and> set (map fst (sinkCalls (snd (findComputersToRemoveFromDB (tableWorld (SearchResult []) (Completed []))
        (start (settings True False [''GAMMA'']) None [''alpha'', ''beta'', ''gamma'']
           \<lparr>dbComputers := [''ALPHA'', ''BETA'', ''GAMMA''], adComputers := [''ALPHA'']\<rparr>))))) = {''BETA''}"
proof -
  let ?w = "tableWorld (SearchResult []) (Completed [])"
  let ?s = "start (settings True False [''GAMMA'']) None [''alpha'', ''beta'', ''gamma'']
           \<lparr>dbComputers := [''ALPHA'', ''BETA'', ''GAMMA''], adComputers := [''ALPHA'']\<rparr>"
  have h1: "sinkCalls ?s = []" by (simp add: start_def)
  have h2: "\<forall>d. sql_Open ?w d = None" by (simp add: tableWorld_def)
  have v: "set (dbComputers ?s) - (set (adComputers ?s) \<union> set (Database_ExemptComputers (config ?s))) = {''BETA''}"
    by (auto simp add: start_def settings_def)
  show ?thesis
    using removal_set_is_difference [OF h1, of ?w] h1 h2 v by simp
qed

text \<open>
  C2, at the input where the program departs from it. The table holds \<open>pc1\<close>, which the
  inventory reader turns into \<open>PC1\<close>; the directory knows only \<open>OTHER\<close>; the
  configuration exempts \<open>pc1\<close>. The exempt entry is compared as it is written, the
  inventory name in upper case, so they differ: \<open>PC1\<close> is handed to
  \<^verbatim>\<open>removeComputer\<close> and the row is deleted. Written \<open>PC1\<close> in the configuration, the
  same entry does exempt the workstation.
\<close>

theorem lowercase_exempt_entry_does_not_exempt:
  "dbComputers (snd (main (tableWorld (SearchResult [cnEntry ''other'']) (Completed []))
       (start (settings True False [''pc1'']) (Some []) [''pc1'']))) = [''PC1'']
   \<and> sinkCalls (snd (main (tableWorld (SearchResult [cnEntry ''other'']) (Completed []))
       (start (settings True False [''pc1'']) (Some []) [''pc1''])))
     = [(''PC1'', Inr True)]
   \<and> database (snd (main (tableWorld (SearchResult [cnEntry ''other'']) (Completed []))
       (start (settings True False [''pc1'']) (Some []) [''pc1'']))) = []
   \<and> sinkCalls (snd (main (tableWorld (SearchResult [cnEntry ''other'']) (Completed []))
       (start (settings True False [''PC1'']) (Some []) [''pc1'']))) = []"
  by code_simp

text \<open>
  C3, as the claim states it, fails: \<^verbatim>\<open>removeComputer\<close> discards the result of
  \<^verbatim>\<open>conn.Exec\<close>, so a delete that affects no row is reported as a removal. Here the
  table holds only \<open>ALPHA\<close>, the delete of \<open>GHOST\<close> affects zero rows, and the function
  returns true and logs the removal.
\<close>

theorem zero_rows_delete_counts_as_removed:
  "fst (conn_Exec (tableWorld (SearchResult []) (Completed [])) ''GHOST'' [''ALPHA'']) = ExecOk 0
   \<and> fst (removeComputer (tableWorld (SearchResult []) (Completed [])) ''GHOST''
            (start (settings True False []) (Some []) [''ALPHA''])) = Inr True
   \<and> infoLogger (snd (removeComputer (tableWorld (SearchResult []) (Completed [])) ''GHOST''
            (start (settings True False []) (Some []) [''ALPHA''])))
        = Some [''GHOST removed from database'']"
  by code_simp

text \<open>
  C3, amended. With the connection open, \<^verbatim>\<open>removeComputer\<close> returns false exactly when
  \<^verbatim>\<open>conn.Exec\<close> returns an error, whatever the number of rows affected. When the info
  logger is set, the failure is logged with the name and the error, and a delete without
  error is logged as a removal, also when it affected no row. A failure does not stop the
  loop: as long as \<^verbatim>\<open>sql.Open\<close> succeeds, the loop reaches its end having handed over
  every candidate, and its \<^verbatim>\<open>count\<close> is the number of calls that returned true.
\<close>

theorem failed_delete_is_skipped_not_fatal:
  assumes "sinkCalls s = []"
  shows "(sql_Open w (database s) = None \<longrightarrow>
            fst (removeComputer w name s) = Inr (\<not> execFailed (fst (conn_Exec w name (database s)))))
         \<and> (sql_Open w (database s) = None \<and> infoLogger s = Some out
              \<and> fst (conn_Exec w name (database s)) = ExecError e \<longrightarrow>
              infoLogger (snd (removeComputer w name s))
                = Some (out @ [''Failed to remove workstion '' @ name @ '': '' @ e]))
         \<and> (sql_Open w (database s) = None \<and> infoLogger s = Some out
              \<and> fst (conn_Exec w name (database s)) = ExecOk n \<longrightarrow>
              infoLogger (snd (removeComputer w name s))
                = Some (out @ [name @ '' removed from database'']))
         \<and> ((\<forall>d. sql_Open w d = None) \<longrightarrow>
              (\<exists>count s'. removalLoop w (dbComputers s) 0 s = (Inr count, s')
                 \<and> map fst (sinkCalls s') = filter (candidate s) (dbComputers s)
                 \<and> count = removedCount (sinkCalls s')))"
proof -
  have "\<exists>count s'. removalLoop w (dbComputers s) 0 s = (Inr count, s')
                 \<and> map fst (sinkCalls s') = filter (candidate s) (dbComputers s)
                 \<and> count = removedCount (sinkCalls s')"
    if opens: "\<forall>d. sql_Open w d = None"
  proof -
    from removalLoop_completes [OF opens, of "dbComputers s" 0 s]
    obtain count where "fst (removalLoop w (dbComputers s) 0 s) = Inr count" by blast
    then obtain s' where loop: "removalLoop w (dbComputers s) 0 s = (Inr count, s')"
      by (cases "removalLoop w (dbComputers s) 0 s") simp
    from removalLoop_calls [OF loop] assms
    have "map fst (sinkCalls s') = filter (candidate s) (dbComputers s)"
      "count = removedCount (sinkCalls s')"
      by auto
    with loop show ?thesis by blast
  qed
  then show ?thesis using removeComputer_result removeComputer_logs by blast
qed

theorem failed_delete_is_skipped_not_fatal_witness:
  "sinkCalls (start (settings True False []) (Some []) [''alpha'', ''beta'', ''gamma'']
       \<lparr>dbComputers := [''ALPHA'', ''BETA'', ''GAMMA''], adComputers := [''ALPHA'']\<rparr>) = []
   \<and> (\<forall>d. sql_Open (busyWorld (SearchResult []) (Completed [])) d = None)
   \<and> fst (conn_Exec (busyWorld (SearchResult []) (Completed [])) ''BETA''
        [''alpha'', ''beta'', ''gamma'']) = ExecError ''deadlock victim''
   \<and> fst (removeComputer (busyWorld (SearchResult []) (Completed [])) ''BETA''
        (start (settings True False []) (Some []) [''alpha'', ''beta'', ''gamma'']
           \<lparr>dbComputers := [''ALPHA'', ''BETA'', ''GAMMA''], adComputers := [''ALPHA'']\<rparr>)) = Inr False
   \<and> infoLogger (snd (removeComputer (busyWorld (SearchResult []) (Completed [])) ''BETA''
        (start (settings True False []) (Some []) [''alpha'', ''beta'', ''gamma'']
           \<lparr>dbComputers := [''ALPHA'', ''BETA'', ''GAMMA''], adComputers := [''ALPHA'']\<rparr>)))
       = Some [''Failed to remove workstion BETA: deadlock victim'']
   \<and> (\<exists>s'. removalLoop (busyWorld (SearchResult []) (Completed [])) [''ALPHA'', ''BETA'', ''GAMMA''] 0
        (start (settings True False []) (Some []) [''alpha'', ''beta'', ''gamma'']
           \<lparr>dbComputers := [''ALPHA'', ''BETA'', ''GAMMA''], adComputers := [''ALPHA'']\<rparr>) = (Inr 1, s')
        \<and> sinkCalls s' = [(''BETA'', Inr False), (''GAMMA'', Inr True)]
        \<and> infoLogger s' = Some [''Failed to remove workstion BETA: deadlock victim'',
                                 ''GAMMA removed from database''])"
proof -
  let ?w = "busyWorld (SearchResult []) (Completed [])"
  let ?s = "start (settings True False []) (Some []) [''alpha'', ''beta'', ''gamma'']
           \<lparr>dbComputers := [''ALPHA'', ''BETA'', ''GAMMA''], adComputers := [''ALPHA'']\<rparr>"
  have h1: "sinkCalls ?s = []" by (simp add: start_def)
  have h2: "\<forall>d. sql_Open ?w d = None" by (simp add: busyWorld_def tableWorld_def)
  have db: "dbComputers ?s = [''ALPHA'', ''BETA'', ''GAMMA'']"
    and d: "database ?s = [''alpha'', ''beta'', ''gamma'']"
    and lg: "infoLogger ?s = Some []"
    by (simp_all add: start_def)
  have ex: "fst (conn_Exec ?w ''BETA'' [''alpha'', ''beta'', ''gamma'']) = ExecError ''deadlock victim''"
    by (simp add: busyWorld_def)
  note t = failed_delete_is_skipped_not_fatal [OF h1, of ?w "''BETA''" "[]" "''deadlock victim''"]
  from t h2 ex d have r: "fst (removeComputer ?w ''BETA'' ?s) = Inr False"
    by (simp add: execFailed_def)
  from t h2 ex d lg have l: "infoLogger (snd (removeComputer ?w ''BETA'' ?s))
      = Some [''Failed to remove workstion BETA: deadlock victim'']"
    by simp
  from t h2 obtain count s' where
    loop: "removalLoop ?w (dbComputers ?s) 0 ?s = (Inr count, s')"
    and cnt: "count = removedCount (sinkCalls s')"
    by blast
  have calls: "sinkCalls (snd (removalLoop ?w [''ALPHA'', ''BETA'', ''GAMMA''] 0 ?s))
      = [(''BETA'', Inr False), (''GAMMA'', Inr True)]"
    by code_simp
  have logs: "infoLogger (snd (removalLoop ?w [''ALPHA'', ''BETA'', ''GAMMA''] 0 ?s))
      = Some [''Failed to remove workstion BETA: deadlock victim'', ''GAMMA removed from database'']"
    by code_simp
  from calls loop db have c: "sinkCalls s' = [(''BETA'', Inr False), (''GAMMA'', Inr True)]" by simp
  from logs loop db have lo: "infoLogger s'
      = Some [''Failed to remove workstion BETA: deadlock victim'', ''GAMMA removed from database'']"
    by simp
  from cnt c have "count = 1" by (simp add: removedCount_def)
  with loop db c lo have "\<exists>s'. removalLoop ?w [''ALPHA'', ''BETA'', ''GAMMA''] 0 ?s = (Inr 1, s')
        \<and> sinkCalls s' = [(''BETA'', Inr False), (''GAMMA'', Inr True)]
        \<and> infoLogger s' = Some [''Failed to remove workstion BETA: deadlock victim'',
                                 ''GAMMA removed from database'']"
    by simp
  with h1 h2 ex r l show ?thesis by blast
qed

text \<open>
  C4. With Active Directory enabled and a search that returns no entry, \<^verbatim>\<open>main\<close> ends
  in an error, \<^verbatim>\<open>removeComputer\<close> has not been called and the database is as it was;
  when the inventory was read without error, the error is the panic of
  \<^verbatim>\<open>listADComputers\<close> on the empty result.
\<close>

theorem empty_directory_aborts_before_removal:
  assumes "ActiveDirectory_Enabled (config s)" and "ldap_Search w = SearchResult []"
  shows "fst (main w s) \<noteq> None
         \<and> sinkCalls (snd (main w s)) = sinkCalls s
         \<and> database (snd (main w s)) = database s
         \<and> (fst (listDBComputers w
                (writeInfo ''Loading the list of computers from the database'' s)) = None
              \<longrightarrow> fst (main w s) = Some (Panic ''no results returned from ldap search''))"
proof -
  let ?s0 = "writeInfo ''Loading the list of computers from the database'' s"
  obtain r s1 where db: "listDBComputers w ?s0 = (r, s1)"
    by (cases "listDBComputers w ?s0")
  note f = listDBComputers_fields [OF db]
  show ?thesis
  proof (cases r)
    case (Some e)
    with db have "main w s = (Some e, s1)" by (simp add: main_def)
    with f db Some show ?thesis by simp
  next
    case None
    from f assms(1) have en: "ActiveDirectory_Enabled (config s1)" by simp
    let ?s2 = "writeInfo ''Loading the list of computers from Active Directory'' s1"
    from db None en listADComputers_empty [OF assms(2), of ?s2]
    have "main w s = (Some (Panic ''no results returned from ldap search''), ?s2)"
      by (simp add: main_def)
    with f show ?thesis by simp
  qed
qed

theorem empty_directory_aborts_before_removal_witness:
  "ActiveDirectory_Enabled (config (start (settings True False []) (Some []) [''alpha'', ''beta'']))
   \<and> ldap_Search (tableWorld (SearchResult []) (Completed [])) = SearchResult []
   \<and> fst (main (tableWorld (SearchResult []) (Completed []))
        (start (settings True False []) (Some []) [''alpha'', ''beta'']))
       = Some (Panic ''no results returned from ldap search'')
   \<and> sinkCalls (snd (main (tableWorld (SearchResult []) (Completed []))
        (start (settings True False []) (Some []) [''alpha'', ''beta'']))) = []
   \<and> database (snd (main (tableWorld (SearchResult []) (Completed []))
        (start (settings True False []) (Some []) [''alpha'', ''beta''])))
       = [''alpha'', ''beta'']"
proof -
  let ?w = "tableWorld (SearchResult []) (Completed [])"
  let ?s = "start (settings True False []) (Some []) [''alpha'', ''beta'']"
  have h1: "ActiveDirectory_Enabled (config ?s)" by (simp add: start_def settings_def)
  have h2: "ldap_Search ?w = SearchResult []" by (simp add: tableWorld_def)
  have h3: "fst (listDBComputers ?w
      (writeInfo ''Loading the list of computers from the database'' ?s)) = None"
    by code_simp
  have v: "sinkCalls ?s = []" "database ?s = [''alpha'', ''beta'']" by (simp_all add: start_def)
  show ?thesis
    using empty_directory_aborts_before_removal [OF h1 h2] h1 h2 h3 v by simp
qed

text \<open>
  C5. When the PowerShell session exits without error and its report holds no device
  line, \<^verbatim>\<open>listAzureComputers\<close> returns without error, leaves \<open>adComputers\<close> as it
  was and logs a count of zero; and \<^verbatim>\<open>main\<close>, having read the inventory and (when
  enabled) Active Directory without error, goes on to
  \<^verbatim>\<open>findComputersToRemoveFromDB\<close>.
\<close>

theorem empty_cloud_report_is_accepted:
  assumes "powershell w = Completed out" and "reportNames_spec w (Split out CR) = []"
  shows "listAzureComputers w s = (None, writeInfo ''0 records retrieved from Azure'' s)
         \<and> (listDBComputers w (writeInfo ''Loading the list of computers from the database'' s0)
                = (None, s1)
              \<and> (if ActiveDirectory_Enabled (config s1)
                   then listADComputers w
                          (writeInfo ''Loading the list of computers from Active Directory'' s1)
                   else (None, s1)) = (None, s2)
              \<and> Azure_Enabled (config s2)
              \<longrightarrow> main w s0
                    = findComputersToRemoveFromDB w
                        (writeInfo ''Searching for computers to remove from the database''
                          (writeInfo ''0 records retrieved from Azure''
                            (writeInfo ''Loading the list of computers from Azure'' s2))))"
proof -
  have az: "listAzureComputers w s = (None, writeInfo ''0 records retrieved from Azure'' s)" for s
    using assms by (simp add: listAzureComputers_completed Itoa_0)
  show ?thesis
    by (simp add: az main_def)
qed

theorem empty_cloud_report_is_accepted_witness:
  "powershell (tableWorld (SearchResult [cnEntry ''alpha'']) (Completed reportNoDevices))
     = Completed reportNoDevices
   \<and> reportNames_spec (tableWorld (SearchResult [cnEntry ''alpha'']) (Completed reportNoDevices))
        (Split reportNoDevices CR) = []
   \<and> listAzureComputers (tableWorld (SearchResult [cnEntry ''alpha'']) (Completed reportNoDevices))
        (start (settings True True []) None [''alpha'', ''beta''])
       = (None, start (settings True True []) None [''alpha'', ''beta''])
   \<and> fst (main (tableWorld (SearchResult [cnEntry ''alpha'']) (Completed reportNoDevices))
        (start (settings True True []) None [''alpha'', ''beta''])) = None
   \<and> map fst (sinkCalls (snd (main (tableWorld (SearchResult [cnEntry ''alpha''])
        (Completed reportNoDevices))
        (start (settings True True []) None [''alpha'', ''beta''])))) = [''BETA'']"
proof -
  let ?w = "tableWorld (SearchResult [cnEntry ''alpha'']) (Completed reportNoDevices)"
  let ?s = "start (settings True True []) None [''alpha'', ''beta'']"
  have h1: "powershell ?w = Completed reportNoDevices" by (simp add: tableWorld_def)
  have h2: "reportNames_spec ?w (Split reportNoDevices CR) = []" by code_simp
  have l: "writeInfo ''0 records retrieved from Azure'' ?s = ?s"
    by (simp add: writeInfo_def start_def)
  have m1: "fst (main ?w ?s) = None" by code_simp
  have m2: "map fst (sinkCalls (snd (main ?w ?s))) = [''BETA'']" by code_simp
  from empty_cloud_report_is_accepted [OF h1 h2, of ?s] l
  have "listAzureComputers ?w ?s = (None, ?s)" by simp
  with h1 h2 m1 m2 show ?thesis by blast
qed

text \<open>
  C6, as the claim states it, fails: the program splits the report at carriage returns,
  not at line feeds. The report of the claim, whose lines end with a line feed alone, is
  one single piece that does not start with the dashes, so no device is read from it.
\<close>

theorem lf_report_yields_no_device:
  "fst (listAzureComputers (tableWorld (SearchResult []) (Completed reportLF))
        (start (settings False True []) (Some []) [])) = None
   \<and> adComputers (snd (listAzureComputers (tableWorld (SearchResult []) (Completed reportLF))
        (start (settings False True []) (Some []) []))) = []
   \<and> infoLogger (snd (listAzureComputers (tableWorld (SearchResult []) (Completed reportLF))
        (start (settings False True []) (Some []) []))) = Some [''0 records retrieved from Azure'']"
  by code_simp

text \<open>
  C6, amended. The pieces of the report between carriage returns are its lines. The
  reader skips the lines up to and including the first one that, trimmed by
  \<^verbatim>\<open>strings.TrimSpace\<close>, starts with eleven dashes, appends each following line, trimmed
  and in upper case, until the first line that is blank once trimmed, and ignores the
  rest; the log line gives their number. For the report of the claim with carriage return
  and line feed at each line end, an ASCII text, the devices are \<open>DEVICE1\<close> and
  \<open>DEVICE2\<close>.
\<close>

theorem report_lines_end_at_carriage_returns:
  "(powershell w = Completed out \<longrightarrow>
      listAzureComputers w s
        = (None,
           writeInfo (Itoa (length (reportNames_spec w (Split out CR))) @ '' records retrieved from Azure'')
             (s\<lparr>adComputers := adComputers s @ reportNames_spec w (Split out CR)\<rparr>)))
   \<and> (asciiLibrary w \<longrightarrow> reportNames_spec w (Split reportCRLF CR) = [''DEVICE1'', ''DEVICE2''])
   \<and> (asciiLibrary w \<and> powershell w = Completed reportCRLF \<longrightarrow>
        adComputers (snd (listAzureComputers w s)) = adComputers s @ [''DEVICE1'', ''DEVICE2''])"
proof -
  have "adComputers (snd (listAzureComputers w s)) = adComputers s @ [''DEVICE1'', ''DEVICE2'']"
    if "asciiLibrary w" "powershell w = Completed reportCRLF"
    using listAzureComputers_completed [OF that(2), of s] reportCRLF_names [OF that(1)] by simp
  then show ?thesis using listAzureComputers_completed reportCRLF_names by blast
qed

theorem report_lines_end_at_carriage_returns_witness:
  "powershell (tableWorld (SearchResult []) (Completed reportCRLF)) = Completed reportCRLF
   \<and> asciiLibrary (tableWorld (SearchResult []) (Completed reportCRLF))
   \<and> fst (listAzureComputers (tableWorld (SearchResult []) (Completed reportCRLF))
        (start (settings False True []) (Some []) [])) = None
   \<and> adComputers (snd (listAzureComputers (tableWorld (SearchResult []) (Completed reportCRLF))
        (start (settings False True []) (Some []) []))) = [''DEVICE1'', ''DEVICE2'']
   \<and> infoLogger (snd (listAzureComputers (tableWorld (SearchResult []) (Completed reportCRLF))
        (start (settings False True []) (Some []) []))) = Some [''2 records retrieved from Azure'']"
proof -
  let ?w = "tableWorld (SearchResult []) (Completed reportCRLF)"
  let ?s = "start (settings False True []) (Some []) [] :: string list state"
  have h: "powershell ?w = Completed reportCRLF" by (simp add: tableWorld_def)
  have lib: "asciiLibrary ?w" by (rule asciiLibrary_tableWorld)
  have a: "adComputers ?s = []" by (simp add: start_def)
  note t = report_lines_end_at_carriage_returns [of ?w reportCRLF ?s]
  from t lib have n: "reportNames_spec ?w (Split reportCRLF CR) = [''DEVICE1'', ''DEVICE2'']"
    by blast
  from t h have "listAzureComputers ?w ?s
        = (None,
           writeInfo (Itoa (length (reportNames_spec ?w (Split reportCRLF CR))) @ '' records retrieved from Azure'')
             (?s\<lparr>adComputers := adComputers ?s @ reportNames_spec ?w (Split reportCRLF CR)\<rparr>))"
    by blast
  then have r: "fst (listAzureComputers ?w ?s) = None"
    and ad: "adComputers (snd (listAzureComputers ?w ?s)) = [''DEVICE1'', ''DEVICE2'']"
    unfolding n using a by simp_all
  have lg: "infoLogger (snd (listAzureComputers ?w ?s)) = Some [''2 records retrieved from Azure'']"
    by code_simp
  from h lib r ad lg show ?thesis by blast
qed






text \<open>
  C9. \<^verbatim>\<open>listADComputers\<close> takes \<^verbatim>\<open>Attributes[0].Values[0]\<close> of every entry without
  a check. If the search result holds an entry with no attribute, or whose first attribute
  has no value, the reader ends in the index panic of the Go runtime; it returns without
  error exactly when the result is not empty and every entry has such a value.
\<close>

theorem directory_reader_panics_on_entry_without_value:
  assumes "ldap_Search w = SearchResult entries"
  shows "((\<exists>x \<in> set entries. \<not> hasName x) \<longrightarrow>
            fst (listADComputers w s)
              = Some (Panic ''runtime error: index out of range [0] with length 0''))
         \<and> (fst (listADComputers w s) = None) = (entries \<noteq> [] \<and> (\<forall>x \<in> set entries. hasName x))"
proof -
  have bad: "fst (listADComputers w s)
      = Some (Panic ''runtime error: index out of range [0] with length 0'')"
    if "\<exists>x \<in> set entries. \<not> hasName x"
  proof -
    from that have ne: "entries \<noteq> []" by auto
    from appendEntries_unnamed [OF that, of w s] obtain s1 where
      "appendEntries w entries s
         = (Some (Panic ''runtime error: index out of range [0] with length 0''), s1)"
      by (cases "appendEntries w entries s") simp
    with assms ne show ?thesis
      by (simp add: listADComputers_def)
  qed
  have good: "fst (listADComputers w s) = None"
    if "entries \<noteq> []" "\<forall>x \<in> set entries. hasName x"
    using assms that appendEntries_named [OF that(2), of w s]
    by (simp add: listADComputers_def)
  have empty: "fst (listADComputers w s) \<noteq> None" if "entries = []"
    using assms that by (simp add: listADComputers_def)
  from bad good empty show ?thesis by (metis option.distinct(1))
qed

theorem directory_reader_panics_on_entry_without_value_witness:
  "ldap_Search (tableWorld (SearchResult [cnEntry ''alpha'', \<lparr>DN = ''CN=beta'', Attributes = []\<rparr>])
       (Completed [])) = SearchResult [cnEntry ''alpha'', \<lparr>DN = ''CN=beta'', Attributes = []\<rparr>]
   \<and> (\<exists>x \<in> set [cnEntry ''alpha'', \<lparr>DN = ''CN=beta'', Attributes = []\<rparr>]. \<not> hasName x)
   \<and> fst (listADComputers
        (tableWorld (SearchResult [cnEntry ''alpha'', \<lparr>DN = ''CN=beta'', Attributes = []\<rparr>]) (Completed []))
        (start (settings True False []) None []))
       = Some (Panic ''runtime error: index out of range [0] with length 0'')"
proof -
  let ?es = "[cnEntry ''alpha'', \<lparr>DN = ''CN=beta'', Attributes = []\<rparr>]"
  have h1: "ldap_Search (tableWorld (SearchResult ?es) (Completed [])) = SearchResult ?es"
    by (simp add: tableWorld_def)
  have h2: "\<exists>x \<in> set ?es. \<not> hasName x" by (simp add: hasName_def)
  show ?thesis
    using directory_reader_panics_on_entry_without_value [OF h1] h1 h2 by blast
qed

text \<open>
  C10. \<open>dbComputers\<close> is a list and keeps duplicates. When the removal loop reaches
  its end, the names handed to \<^verbatim>\<open>removeComputer\<close> are the candidates among
  \<open>dbComputers\<close> in order and with their multiplicity, so a candidate that occurs twice
  is handed over twice, and \<^verbatim>\<open>count\<close> is the number of calls that returned true, each
  counted on its own.
\<close>

theorem duplicate_rows_removed_once_each:
  assumes "removalLoop w (dbComputers s) 0 s = (Inr count, s')" and "sinkCalls s = []"
  shows "map fst (sinkCalls s') = filter (candidate s) (dbComputers s)
         \<and> (\<forall>x. candidate s x \<longrightarrow> count_list (map fst (sinkCalls s')) x = count_list (dbComputers s) x)
         \<and> count = removedCount (sinkCalls s')"
proof -
  from removalLoop_calls [OF assms(1)] assms(2)
  have m: "map fst (sinkCalls s') = filter (candidate s) (dbComputers s)"
    and c: "count = removedCount (sinkCalls s')"
    by auto
  from m have "\<forall>x. candidate s x \<longrightarrow> count_list (map fst (sinkCalls s')) x = count_list (dbComputers s) x"
    by (simp add: count_list_filter)
  with m c show ?thesis by blast
qed

theorem duplicate_rows_removed_once_each_witness:
  "dbComputers (snd (listDBComputers (tableWorld (SearchResult [cnEntry ''other'']) (Completed []))
       (start (settings True False []) (Some []) [''pc1'', ''PC1''])))
     = [''PC1'', ''PC1'']
   \<and> sinkCalls (start (settings True False []) (Some []) [''pc1'', ''PC1'']
        \<lparr>dbComputers := [''PC1'', ''PC1''], adComputers := [''OTHER'']\<rparr>) = []
   \<and> candidate (start (settings True False []) (Some []) [''pc1'', ''PC1'']
        \<lparr>dbComputers := [''PC1'', ''PC1''], adComputers := [''OTHER'']\<rparr>) ''PC1''
   \<and> fst (removalLoop (tableWorld (SearchResult [cnEntry ''other'']) (Completed []))
        [''PC1'', ''PC1''] 0
        (start (settings True False []) (Some []) [''pc1'', ''PC1'']
           \<lparr>dbComputers := [''PC1'', ''PC1''], adComputers := [''OTHER'']\<rparr>)) = Inr 2
   \<and> count_list (map fst (sinkCalls (snd (removalLoop
        (tableWorld (SearchResult [cnEntry ''other'']) (Completed []))
        [''PC1'', ''PC1''] 0
        (start (settings True False []) (Some []) [''pc1'', ''PC1'']
           \<lparr>dbComputers := [''PC1'', ''PC1''], adComputers := [''OTHER'']\<rparr>))))) ''PC1'' = 2
   \<and> removedCount (sinkCalls (snd (removalLoop
        (tableWorld (SearchResult [cnEntry ''other'']) (Completed []))
        [''PC1'', ''PC1''] 0
        (start (settings True False []) (Some []) [''pc1'', ''PC1'']
           \<lparr>dbComputers := [''PC1'', ''PC1''], adComputers := [''OTHER'']\<rparr>)))) = 2
   \<and> infoLogger (snd (main (tableWorld (SearchResult [cnEntry ''other'']) (Completed []))
        (start (settings True False []) (Some []) [''pc1'', ''PC1''])))
     = Some [''Loading the list of computers from the database'', ''2 records retrieved'',
             ''Loading the list of computers from Active Directory'',
             ''1 records retrieved from AD'',
             ''Searching for computers to remove from the database'',
             ''PC1 removed from database'', ''PC1 removed from database'',
             ''2 computers removed from database'']"
proof -
  let ?w = "tableWorld (SearchResult [cnEntry ''other'']) (Completed [])"
  let ?s = "start (settings True False []) (Some []) [''pc1'', ''PC1'']
        \<lparr>dbComputers := [''PC1'', ''PC1''], adComputers := [''OTHER'']\<rparr>"
  have db: "dbComputers ?s = [''PC1'', ''PC1'']" by (simp add: start_def)
  have h2: "sinkCalls ?s = []" by (simp add: start_def)
  have ca: "candidate ?s ''PC1''" by (simp add: candidate_def start_def settings_def)
  have r: "fst (removalLoop ?w [''PC1'', ''PC1''] 0 ?s) = Inr 2" by code_simp
  then have h1: "removalLoop ?w (dbComputers ?s) 0 ?s
      = (Inr 2, snd (removalLoop ?w [''PC1'', ''PC1''] 0 ?s))"
    unfolding db by (simp add: prod_eq_iff)
  have rd: "dbComputers (snd (listDBComputers ?w
       (start (settings True False []) (Some []) [''pc1'', ''PC1''])))
     = [''PC1'', ''PC1'']"
    by code_simp
  have lg: "infoLogger (snd (main ?w (start (settings True False []) (Some []) [''pc1'', ''PC1''])))
     = Some [''Loading the list of computers from the database'', ''2 records retrieved'',
             ''Loading the list of computers from Active Directory'',
             ''1 records retrieved from AD'',
             ''Searching for computers to remove from the database'',
             ''PC1 removed from database'', ''PC1 removed from database'',
             ''2 computers removed from database'']"
    by code_simp
  from duplicate_rows_removed_once_each [OF h1 h2] ca
  have "count_list (map fst (sinkCalls (snd (removalLoop ?w [''PC1'', ''PC1''] 0 ?s)))) ''PC1''
          = count_list (dbComputers ?s) ''PC1''"
    and "2 = removedCount (sinkCalls (snd (removalLoop ?w [''PC1'', ''PC1''] 0 ?s)))"
    by blast+
  then have "count_list (map fst (sinkCalls (snd (removalLoop ?w [''PC1'', ''PC1''] 0 ?s)))) ''PC1'' = 2"
    and "removedCount (sinkCalls (snd (removalLoop ?w [''PC1'', ''PC1''] 0 ?s))) = 2"
    unfolding db by simp_all
  with rd h2 ca r lg show ?thesis by blast
qed

end
